theory Spec2Isabelle
  imports Main "HOL-Library.Sublist"
begin

section \<open>Python string operations used by the scripts\<close>

text \<open>
  The manifest (\<open>project.pbxproj\<close>) is read as one Python \<open>str\<close> and edited with
  \<open>find\<close>, \<open>rfind\<close>, slicing, \<open>in\<close>, \<open>split\<close>, \<open>join\<close> and \<open>replace\<close>. A text is a
  \<open>string\<close> (one list element per character of the Python string), indices are \<open>int\<close>
  because \<open>find\<close> returns \<open>-1\<close> and the scripts pass that value on to slices and to
  further searches. Python's \<open>sub in s\<close> is \<open>sublist sub s\<close>.
\<close>

abbreviation NL :: char where "NL \<equiv> CHR 0x0A"
abbreviation TAB :: char where "TAB \<equiv> CHR 0x09"
abbreviation CR :: char where "CR \<equiv> CHR 0x0D"

text \<open>A slice bound: a negative index counts from the end, and is clamped at 0
  (\<open>take\<close> and \<open>drop\<close> clamp at the length).\<close>

definition slice_index :: "string \<Rightarrow> int \<Rightarrow> nat" where
  "slice_index s i = nat (if i < 0 then i + int (length s) else i)"

text \<open>\<open>s[:i]\<close> and \<open>s[i:]\<close>\<close>

definition slice_to :: "string \<Rightarrow> int \<Rightarrow> string" where
  "slice_to s i = take (slice_index s i) s"

definition slice_from :: "string \<Rightarrow> int \<Rightarrow> string" where
  "slice_from s i = drop (slice_index s i) s"

text \<open>Offset of the first (last) occurrence of \<open>sub\<close> in \<open>s\<close>.\<close>

fun find_first :: "string \<Rightarrow> string \<Rightarrow> nat option" where
  "find_first sub [] = (if sub = [] then Some 0 else None)"
| "find_first sub (c # cs) =
     (if prefix sub (c # cs) then Some 0
      else (case find_first sub cs of None \<Rightarrow> None | Some i \<Rightarrow> Some (Suc i)))"

fun find_last :: "string \<Rightarrow> string \<Rightarrow> nat option" where
  "find_last sub [] = (if sub = [] then Some 0 else None)"
| "find_last sub (c # cs) =
     (case find_last sub cs of
        Some i \<Rightarrow> Some (Suc i)
      | None \<Rightarrow> if prefix sub (c # cs) then Some 0 else None)"

text \<open>\<open>s.find(sub, start)\<close>: the lowest index at or after \<open>start\<close> where \<open>sub\<close> occurs,
  \<open>-1\<close> when there is none; a negative \<open>start\<close> counts from the end.\<close>

definition py_find :: "string \<Rightarrow> string \<Rightarrow> int \<Rightarrow> int" where
  "py_find s sub start =
     (let k = slice_index s start in
      if length s < k then - 1
      else (case find_first sub (drop k s) of
              None \<Rightarrow> - 1
            | Some i \<Rightarrow> int (k + i)))"

text \<open>\<open>s.rfind(sub, 0, end)\<close>: the highest index of an occurrence of \<open>sub\<close> inside
  \<open>s[0:end]\<close>, \<open>-1\<close> when there is none.\<close>

definition py_rfind :: "string \<Rightarrow> string \<Rightarrow> int \<Rightarrow> int" where
  "py_rfind s sub e =
     (case find_last sub (slice_to s e) of
        None \<Rightarrow> - 1
      | Some i \<Rightarrow> int i)"

text \<open>\<open>s.split('\n')\<close> and \<open>'\n'.join(lines)\<close>\<close>

fun py_split :: "char \<Rightarrow> string \<Rightarrow> string list" where
  "py_split sep [] = [[]]"
| "py_split sep (c # cs) =
     (let r = py_split sep cs in
      if c = sep then [] # r else (c # hd r) # tl r)"

fun py_join :: "string \<Rightarrow> string list \<Rightarrow> string" where
  "py_join sep [] = []"
| "py_join sep [l] = l"
| "py_join sep (l # m # ls) = l @ sep @ py_join sep (m # ls)"

text \<open>\<open>s.replace(old, new)\<close>: every non-overlapping occurrence of \<open>old\<close>, scanning from
  the left. For the empty pattern Python puts \<open>new\<close> before every character and at the end.\<close>

function replace_scan :: "string \<Rightarrow> string \<Rightarrow> string \<Rightarrow> string" where
  "replace_scan old new [] = []"
| "replace_scan old new (c # cs) =
     (if prefix old (c # cs) then new @ replace_scan old new (drop (length old - 1) cs)
      else c # replace_scan old new cs)"
  by pat_completeness auto
termination
  by (relation "measure (\<lambda>(old, new, s). length s)") auto

definition py_replace :: "string \<Rightarrow> string \<Rightarrow> string \<Rightarrow> string" where
  "py_replace s old new =
     (if old = [] then new @ concat (map (\<lambda>c. c # new) s)
      else replace_scan old new s)"


section \<open>Reading and writing the project file\<close>

text \<open>
  Every script reads the project file with \<open>open(project_file, 'r')\<close> and \<open>f.read()\<close>, and
  writes it with \<open>open(project_file, 'w')\<close> and \<open>f.write(content)\<close>. A file is the sequence
  of its characters (it is taken to exist and to decode). Reading in text mode translates line ends (universal newlines): a
  carriage return followed by a line feed, and a carriage return alone, each become one
  line feed. Writing in text mode replaces a line feed by the line separator of the
  platform, which is the line feed itself on the system the scripts are written for (the
  project path is under \<open>/Users\<close>), so the file written is the text given to \<open>write\<close>.
\<close>

fun universal_newlines :: "string \<Rightarrow> string" where
  "universal_newlines [] = []"
| "universal_newlines [c] = [if c = CR then NL else c]"
| "universal_newlines (c # d # cs) =
     (if c = CR \<and> d = NL then NL # universal_newlines cs
      else if c = CR then NL # universal_newlines (d # cs)
      else c # universal_newlines (d # cs))"

definition read_text :: "string \<Rightarrow> string" where
  "read_text file = universal_newlines file"


section \<open>fix_path.py\<close>

text \<open>What the scripts print, one constructor per \<open>print\<close> statement that carries
  information about a file.\<close>

datatype msg =
    FoundReferences                \<comment> \<open>Found NaviGPTCore.swift references in project file\<close>
  | LineReport nat string          \<comment> \<open>Line i: line\<close>
  | CheckedUpdated                 \<comment> \<open>Project file checked/updated\<close>
  | RemovedReferences              \<comment> \<open>Removed NaviGPTCore.swift references from project\<close>
  | Processing string              \<comment> \<open>Processing: file_name\<close>
  | AlreadyInProject string        \<comment> \<open>file_name already in project, skipping... (the warning sign)\<close>
  | Added string                   \<comment> \<open>Added file_name (the check mark)\<close>
  | SectionNotFound string         \<comment> \<open>Error: Could not find ... section\<close>
  | FailedToAdd                    \<comment> \<open>Failed to add file\<close>
  | FileAddedSuccessfully          \<comment> \<open>File added successfully!\<close>

text \<open>A run of a script on a project file: the content of the file it leaves when it
  writes it (\<open>None\<close>: the file is not written), what it prints, and its exit status.\<close>

record run =
  written :: "string option"
  printed :: "msg list"
  exit_code :: int

text \<open>The loop of fix_path.py over \<open>enumerate(lines)\<close>: it only prints.\<close>

fun report_lines :: "string \<Rightarrow> nat \<Rightarrow> string list \<Rightarrow> msg list" where
  "report_lines name i [] = []"
| "report_lines name i (line # lines) =
     (if sublist name line then LineReport i line # report_lines name (Suc i) lines
      else report_lines name (Suc i) lines)"

definition fix_path :: "string \<Rightarrow> run" where
  "fix_path file =
     (let content0 = read_text file;
          content = py_replace content0 ''path = NaviGPTCore.swift;'' ''path = NaviGPTCore.swift;'';
          out = (if sublist ''NaviGPTCore.swift'' content
                 then FoundReferences # report_lines ''NaviGPTCore.swift'' 0 (py_split NL content)
                 else [])
      in \<lparr> written = Some content, printed = out @ [CheckedUpdated], exit_code = 0 \<rparr>)"


section \<open>remove_refs.py\<close>

text \<open>The loop that keeps the lines without the name; the script has the name
  \<open>NaviGPTCore.swift\<close> written in.\<close>

fun keep_lines :: "string \<Rightarrow> string list \<Rightarrow> string list" where
  "keep_lines name [] = []"
| "keep_lines name (line # lines) =
     (if \<not> sublist name line then line # keep_lines name lines
      else keep_lines name lines)"

definition unregister :: "string \<Rightarrow> string \<Rightarrow> string" where
  "unregister name content = py_join [NL] (keep_lines name (py_split NL content))"

definition remove_refs :: "string \<Rightarrow> run" where
  "remove_refs file =
     (let content = read_text file
      in \<lparr> written = Some (unregister ''NaviGPTCore.swift'' content),
           printed = [RemovedReferences], exit_code = 0 \<rparr>)"


section \<open>Identifiers\<close>

text \<open>
  \<open>generate_uuid\<close> is \<open>str(uuid.uuid4()).replace('-', '')[:24].upper()\<close>. The random
  source is a parameter \<open>uuid4 :: nat \<Rightarrow> string\<close>: the text of the n-th UUID drawn in a
  run. Removing the dashes, cutting at 24 characters and upper-casing are modelled as
  written; the text of a UUID is made of hexadecimal digits and dashes, and \<open>upper_char\<close>
  is \<open>upper()\<close> on the letters of ASCII (it leaves every other character as it is).
\<close>

definition upper_char :: "char \<Rightarrow> char" where
  "upper_char c =
     (case map_of (zip ''abcdefghijklmnopqrstuvwxyz'' ''ABCDEFGHIJKLMNOPQRSTUVWXYZ'') c of
        None \<Rightarrow> c
      | Some u \<Rightarrow> u)"

definition generate_uuid :: "string \<Rightarrow> string" where
  "generate_uuid raw = map upper_char (take 24 (filter (\<lambda>c. c \<noteq> CHR ''-'') raw))"


section \<open>The four texts inserted for one file\<close>

definition new_build_file :: "string \<Rightarrow> string \<Rightarrow> string \<Rightarrow> string" where
  "new_build_file build_file_uuid file_ref_uuid file_name =
     [TAB, TAB] @ build_file_uuid @ '' /* '' @ file_name
       @ '' in Sources */ = {isa = PBXBuildFile; fileRef = '' @ file_ref_uuid
       @ '' /* '' @ file_name @ '' */; };'' @ [NL]"

definition new_file_ref :: "string \<Rightarrow> string \<Rightarrow> string" where
  "new_file_ref file_ref_uuid file_name =
     [TAB, TAB] @ file_ref_uuid @ '' /* '' @ file_name
       @ '' */ = {isa = PBXFileReference; lastKnownFileType = sourcecode.swift; path = ''
       @ file_name @ ''; sourceTree = '' @ [CHR 0x22] @ ''<group>'' @ [CHR 0x22]
       @ ''; };'' @ [NL]"

definition child_entry :: "string \<Rightarrow> string \<Rightarrow> string" where
  "child_entry file_ref_uuid file_name =
     [TAB, TAB, TAB, TAB] @ file_ref_uuid @ '' /* '' @ file_name @ '' */,''
       @ [NL, TAB, TAB, TAB]"

definition source_entry :: "string \<Rightarrow> string \<Rightarrow> string" where
  "source_entry build_file_uuid file_name =
     [TAB, TAB, TAB, TAB] @ build_file_uuid @ '' /* '' @ file_name @ '' in Sources */,''
       @ [NL, TAB, TAB, TAB]"


section \<open>The edits of the registration scripts\<close>

text \<open>\<open>content[:pos] + new + content[pos:]\<close>\<close>

definition insert_at :: "string \<Rightarrow> int \<Rightarrow> string \<Rightarrow> string" where
  "insert_at content pos new = slice_to content pos @ new @ slice_from content pos"

text \<open>
  Insertion after the header line of a section: the marker is searched, then the next
  line break from there (from \<open>-1\<close>, that is the last character, when the marker is
  missing), and the text goes right after it (at 0 when there is no line break).
  The batch scripts do not test the result of the search.
\<close>

definition insert_after_header :: "string \<Rightarrow> string \<Rightarrow> string \<Rightarrow> string" where
  "insert_after_header marker content new =
     (let section_pos = py_find content marker 0;
          insert_pos = py_find content [NL] section_pos + 1
      in insert_at content insert_pos new)"

definition add_build_file :: "string \<Rightarrow> string \<Rightarrow> string" where
  "add_build_file content new =
     insert_after_header ''/* Begin PBXBuildFile section */'' content new"

definition add_file_ref :: "string \<Rightarrow> string \<Rightarrow> string" where
  "add_file_ref content new =
     insert_after_header ''/* Begin PBXFileReference section */'' content new"

text \<open>The children list found through the anchor file \<open>ContentView.swift\<close>.\<close>

definition add_to_main_group :: "string \<Rightarrow> string \<Rightarrow> string" where
  "add_to_main_group content new =
     (let content_view_pos = py_find content ''ContentView.swift'' 0 in
      if content_view_pos \<noteq> - 1 then
        (let search_start = py_rfind content ''children = ('' content_view_pos in
         if search_start \<noteq> - 1 then
           (let children_end = py_find content '');'' search_start
            in insert_at content children_end new)
         else content)
      else content)"

text \<open>Phase 3: the Services group first, the anchor file when the marker is absent.\<close>

definition add_to_services_group :: "string \<Rightarrow> string \<Rightarrow> string" where
  "add_to_services_group content new =
     (let services_group_marker = py_find content ''/* Services */'' 0 in
      if services_group_marker \<noteq> - 1 then
        (let search_start = py_rfind content ''children = ('' (services_group_marker + 100) in
         if search_start \<noteq> - 1 then
           (let children_end = py_find content '');'' search_start
            in insert_at content children_end new)
         else content)
      else add_to_main_group content new)"

text \<open>Test files: the Intern1Tests group for \<open>Phase2Tests\<close>, the anchor file otherwise.\<close>

definition add_to_test_group :: "string \<Rightarrow> string \<Rightarrow> string \<Rightarrow> string" where
  "add_to_test_group file_name content new =
     (if sublist ''Phase2Tests'' file_name then
        (let intern1tests_pos = py_find content ''E1F569E22C501D8A0010BF96 /* Intern1Tests */'' 0 in
         if intern1tests_pos \<noteq> - 1 then
           (let children_start = py_find content ''children = ('' intern1tests_pos;
                children_end = py_find content '');'' children_start
            in insert_at content children_end new)
         else content)
      else add_to_main_group content new)"

text \<open>The \<open>files\<close> list of a target's Sources build phase, found by the phase's
  identifier; the result of the search for \<open>files = (\<close> is not tested.\<close>

definition add_to_sources_phase :: "string \<Rightarrow> string \<Rightarrow> string \<Rightarrow> string" where
  "add_to_sources_phase target content new =
     (let target_pos = py_find content target 0 in
      if target_pos \<noteq> - 1 then
        (let files_start = py_find content ''files = ('' target_pos;
             files_end = py_find content '');'' files_start
         in insert_at content files_end new)
      else content)"

abbreviation navigpt_sources :: string where
  "navigpt_sources \<equiv> ''E1F569CB2C501D880010BF96 /* Sources */''"

abbreviation navigpt_tests_sources :: string where
  "navigpt_tests_sources \<equiv> ''E1F569DB2C501D8A0010BF96 /* Sources */''"

text \<open>The body of each loop after the duplicate check: the four edits in the order of
  the source, each on the content the previous one left.\<close>

definition register_main :: "string \<Rightarrow> string \<Rightarrow> string \<Rightarrow> string \<Rightarrow> string" where
  "register_main content file_ref_uuid build_file_uuid file_name =
     (let c1 = add_build_file content (new_build_file build_file_uuid file_ref_uuid file_name);
          c2 = add_file_ref c1 (new_file_ref file_ref_uuid file_name);
          c3 = add_to_main_group c2 (child_entry file_ref_uuid file_name)
      in add_to_sources_phase navigpt_sources c3 (source_entry build_file_uuid file_name))"

definition register_test :: "string \<Rightarrow> string \<Rightarrow> string \<Rightarrow> string \<Rightarrow> string" where
  "register_test content file_ref_uuid build_file_uuid file_name =
     (let c1 = add_build_file content (new_build_file build_file_uuid file_ref_uuid file_name);
          c2 = add_file_ref c1 (new_file_ref file_ref_uuid file_name);
          c3 = add_to_test_group file_name c2 (child_entry file_ref_uuid file_name)
      in add_to_sources_phase navigpt_tests_sources c3 (source_entry build_file_uuid file_name))"

definition register_phase3 :: "string \<Rightarrow> string \<Rightarrow> string \<Rightarrow> string \<Rightarrow> string" where
  "register_phase3 content file_ref_uuid build_file_uuid file_name =
     (let c1 = add_build_file content (new_build_file build_file_uuid file_ref_uuid file_name);
          c2 = add_file_ref c1 (new_file_ref file_ref_uuid file_name);
          c3 = add_to_services_group c2 (child_entry file_ref_uuid file_name)
      in add_to_sources_phase navigpt_sources c3 (source_entry build_file_uuid file_name))"


section \<open>The loops over the requested files\<close>

text \<open>The state of a run: the manifest text in memory, the number of UUIDs drawn so
  far, and what has been printed. (The dictionary \<open>file_uuids\<close> is only written, never
  read, and is left out.)\<close>

record state =
  st_content :: string
  st_uuids :: nat
  st_out :: "msg list"

text \<open>One iteration; the three loops differ only in the registration they perform.\<close>

definition process_file ::
  "(string \<Rightarrow> string \<Rightarrow> string \<Rightarrow> string \<Rightarrow> string) \<Rightarrow> (nat \<Rightarrow> string)
     \<Rightarrow> state \<Rightarrow> string \<times> string \<Rightarrow> state" where
  "process_file register uuid4 st file =
     (case file of (file_path, file_name) \<Rightarrow>
        if sublist file_name (st_content st)
        then st\<lparr> st_out := st_out st @ [Processing file_name, AlreadyInProject file_name] \<rparr>
        else
          (let file_ref_uuid = generate_uuid (uuid4 (st_uuids st));
               build_file_uuid = generate_uuid (uuid4 (Suc (st_uuids st)))
           in \<lparr> st_content = register (st_content st) file_ref_uuid build_file_uuid file_name,
                st_uuids = Suc (Suc (st_uuids st)),
                st_out = st_out st @ [Processing file_name, Added file_name] \<rparr>))"

definition process_files ::
  "(string \<Rightarrow> string \<Rightarrow> string \<Rightarrow> string \<Rightarrow> string) \<Rightarrow> (nat \<Rightarrow> string)
     \<Rightarrow> state \<Rightarrow> (string \<times> string) list \<Rightarrow> state" where
  "process_files register uuid4 st files = foldl (process_file register uuid4) st files"


section \<open>add_phase_files_to_xcode.py\<close>

definition main_target_files :: "(string \<times> string) list" where
  "main_target_files =
     [(''NaviGPT/ConfigManager.swift'', ''ConfigManager.swift''),
      (''NaviGPT/NaviGPTCore.swift'', ''NaviGPTCore.swift''),
      (''NaviGPT/Models/ModelTypes.swift'', ''ModelTypes.swift''),
      (''NaviGPT/Models/NavigationContext.swift'', ''NavigationContext.swift''),
      (''NaviGPT/Models/ObstacleInfo.swift'', ''ObstacleInfo.swift''),
      (''NaviGPT/Models/VisionModels.swift'', ''VisionModels.swift''),
      (''NaviGPT/Services/CoreMLModelManager.swift'', ''CoreMLModelManager.swift''),
      (''NaviGPT/Services/VisionModelProcessor.swift'', ''VisionModelProcessor.swift''),
      (''NaviGPT/Services/DepthEstimationProcessor.swift'', ''DepthEstimationProcessor.swift'')]"

definition test_target_files :: "(string \<times> string) list" where
  "test_target_files =
     [(''NaviGPT/Tests/ConfigManagerTests.swift'', ''ConfigManagerTests.swift''),
      (''NaviGPT/Tests/ObstacleInfoTests.swift'', ''ObstacleInfoTests.swift''),
      (''Intern1Tests/Phase2Tests.swift'', ''Phase2Tests.swift'')]"

text \<open>\<open>add_files_to_project\<close> followed by the exit of \<open>__main__\<close>: the function always
  returns \<open>True\<close>, so the status is 0. The project file is taken to exist and to be
  readable (the input is its content).\<close>

definition add_files_to_project :: "(nat \<Rightarrow> string) \<Rightarrow> string \<Rightarrow> run" where
  "add_files_to_project uuid4 file =
     (let content0 = read_text file;
          st0 = \<lparr> st_content = content0, st_uuids = 0, st_out = [] \<rparr>;
          st1 = process_files register_main uuid4 st0 main_target_files;
          st2 = process_files register_test uuid4 st1 test_target_files
      in \<lparr> written = Some (st_content st2), printed = st_out st2, exit_code = 0 \<rparr>)"


section \<open>add_phase3_files_to_xcode.py\<close>

definition phase3_target_files :: "(string \<times> string) list" where
  "phase3_target_files =
     [(''NaviGPT/Services/RealTimeCameraProcessor.swift'', ''RealTimeCameraProcessor.swift''),
      (''NaviGPT/Services/EnhancedLiDARProcessor.swift'', ''EnhancedLiDARProcessor.swift'')]"

definition add_phase3_files_to_project :: "(nat \<Rightarrow> string) \<Rightarrow> string \<Rightarrow> run" where
  "add_phase3_files_to_project uuid4 file =
     (let content0 = read_text file;
          st0 = \<lparr> st_content = content0, st_uuids = 0, st_out = [] \<rparr>;
          st1 = process_files register_phase3 uuid4 st0 phase3_target_files
      in \<lparr> written = Some (st_content st1), printed = st_out st1, exit_code = 0 \<rparr>)"


section \<open>add_to_xcode.py\<close>

text \<open>The single-file script tests both section markers and returns \<open>False\<close> without
  writing when one is missing; \<open>__main__\<close> then exits with status 1.\<close>

definition add_to_first_sources_phase :: "string \<Rightarrow> string \<Rightarrow> string" where
  "add_to_first_sources_phase content new =
     (let sources_phase = py_find content ''/* Sources */ = {'' 0 in
      if sources_phase \<noteq> - 1 then
        (let files_start = py_find content ''files = ('' sources_phase in
         if files_start \<noteq> - 1 then
           (let files_end = py_find content '');'' files_start
            in insert_at content files_end new)
         else content)
      else content)"

definition add_file_manually :: "(nat \<Rightarrow> string) \<Rightarrow> string \<Rightarrow> run" where
  "add_file_manually uuid4 file =
     (let content0 = read_text file;
          file_ref_uuid = generate_uuid (uuid4 0);
          build_file_uuid = generate_uuid (uuid4 1);
          pbx_build_file_section = py_find content0 ''/* Begin PBXBuildFile section */'' 0
      in
      if pbx_build_file_section = - 1
      then \<lparr> written = None, printed = [SectionNotFound ''PBXBuildFile'', FailedToAdd],
             exit_code = 1 \<rparr>
      else
        (let insert_pos = py_find content0 [NL] pbx_build_file_section + 1;
             content1 = insert_at content0 insert_pos
                          (new_build_file build_file_uuid file_ref_uuid ''NaviGPTCore.swift'');
             file_ref_section = py_find content1 ''/* Begin PBXFileReference section */'' 0
         in
         if file_ref_section = - 1
         then \<lparr> written = None, printed = [SectionNotFound ''PBXFileReference'', FailedToAdd],
                exit_code = 1 \<rparr>
         else
           (let insert_pos2 = py_find content1 [NL] file_ref_section + 1;
                content2 = insert_at content1 insert_pos2
                             (new_file_ref file_ref_uuid ''NaviGPTCore.swift'');
                content3 = add_to_main_group content2
                             (child_entry file_ref_uuid ''NaviGPTCore.swift'');
                content4 = add_to_first_sources_phase content3
                             (source_entry build_file_uuid ''NaviGPTCore.swift'')
            in \<lparr> written = Some content4,
                 printed = [Added ''NaviGPTCore.swift'', FileAddedSuccessfully],
                 exit_code = 0 \<rparr>)))"


section \<open>Notions used in the statements\<close>

text \<open>The text \<open>t\<close> put into \<open>s\<close> at offset \<open>k\<close>, nothing else changed.\<close>

definition splice :: "string \<Rightarrow> nat \<Rightarrow> string \<Rightarrow> string" where
  "splice s k t = take k s @ t @ drop k s"

text \<open>An edit that leaves the content alone or puts the new text in at one place.\<close>

definition spliced :: "string \<Rightarrow> string \<Rightarrow> string \<Rightarrow> bool" where
  "spliced c new c' \<longleftrightarrow> c' = c \<or> (\<exists>k. c' = splice c k new)"

text \<open>A manifest text that holds the display name of every file of
  add_phase_files_to_xcode.py, one per line.\<close>

definition all_names_text :: string where
  "all_names_text = concat (map (\<lambda>f. snd f @ [NL]) (main_target_files @ test_target_files))"

text \<open>The output of a run on a project file only adds to the text read from it, and to
  the file itself when the file holds no carriage return.\<close>

definition inserts_only :: "string \<Rightarrow> string \<Rightarrow> bool" where
  "inserts_only file out \<longleftrightarrow>
     subseq (read_text file) out \<and> (CR \<notin> set file \<longrightarrow> subseq file out)"

text \<open>A source of UUIDs for the examples: every draw gives the same UUID, whose
  identifier is \<open>000000000000400080000000\<close>.\<close>

definition zero_uuid4 :: "nat \<Rightarrow> string" where
  "zero_uuid4 n = ''00000000-0000-4000-8000-000000000000''"

text \<open>A registration that only inserts.\<close>

definition inserting :: "(string \<Rightarrow> string \<Rightarrow> string \<Rightarrow> string \<Rightarrow> string) \<Rightarrow> bool" where
  "inserting register \<longleftrightarrow> (\<forall>c r b n. subseq c (register c r b n))"






text \<open>A text that is empty or ends with a line feed; a text that ends with a line feed.\<close>

definition nl_end :: "string \<Rightarrow> bool" where
  "nl_end c \<longleftrightarrow> c \<noteq> [] \<and> last c = NL"

definition ends_nl :: "string \<Rightarrow> bool" where
  "ends_nl c \<longleftrightarrow> c = [] \<or> last c = NL"

text \<open>A name with no line feed and no closing parenthesis.\<close>

definition clean :: "string \<Rightarrow> bool" where
  "clean x \<longleftrightarrow> NL \<notin> set x \<and> CHR '')'' \<notin> set x"

text \<open>The edit of a list: nothing, or the new text before a \<open>);\<close> found by a search (at
  the last character when the search fails).\<close>

definition close_insert :: "string \<Rightarrow> string \<Rightarrow> string \<Rightarrow> bool" where
  "close_insert c new c' \<longleftrightarrow> c' = c \<or> (\<exists>s. c' = insert_at c (py_find c '');'' s) new)"


text \<open>What a registration keeps.\<close>

definition keeping :: "(string \<Rightarrow> string \<Rightarrow> string \<Rightarrow> string \<Rightarrow> string) \<Rightarrow> bool" where
  "keeping register \<longleftrightarrow>
     (\<forall>c r b n. ends_nl c \<longrightarrow> nl_end (register c r b n)) \<and>
     (\<forall>c r b n x. ends_nl c \<and> clean x \<and> sublist x c \<longrightarrow> sublist x (register c r b n)) \<and>
     (\<forall>c r b n. ends_nl c \<and> clean n \<longrightarrow> sublist n (register c r b n)) \<and>
     (\<forall>c r b n. CR \<notin> set c \<and> CR \<notin> set r \<and> CR \<notin> set b \<and> CR \<notin> set n
        \<longrightarrow> CR \<notin> set (register c r b n))"


section \<open>Facts about the string operations\<close>

lemma universal_newlines_no_cr: "CR \<notin> set s \<Longrightarrow> universal_newlines s = s"
  by (induction s rule: universal_newlines.induct) auto

lemma read_text_no_cr: "CR \<notin> set file \<Longrightarrow> read_text file = file"
  by (simp add: read_text_def universal_newlines_no_cr)



lemma slice_to_from: "slice_to s i @ slice_from s i = s"
  by (simp add: slice_to_def slice_from_def)

lemma replace_scan_eq: "new = old \<Longrightarrow> old \<noteq> [] \<Longrightarrow> replace_scan old new s = s"
proof (induction old new s rule: replace_scan.induct)
  case (1 old new)
  show ?case by simp
next
  case (2 old new c cs)
  show ?case
  proof (cases "prefix old (c # cs)")
    case True
    then obtain zs where zs: "c # cs = old @ zs" by (auto simp: prefix_def)
    from "2.prems" obtain o1 os where os: "old = o1 # os" by (cases old) auto
    from zs os have cs: "cs = os @ zs" by simp
    have d: "drop (length old - 1) cs = zs" by (simp add: os cs)
    have "replace_scan old new (drop (length old - 1) cs) = drop (length old - 1) cs"
      using "2.IH"(1) [OF True] "2.prems" by simp
    then have "replace_scan old new (c # cs) = old @ zs"
      using True "2.prems" d by simp
    then show ?thesis using zs by simp
  next
    case False
    have "replace_scan old new cs = cs"
      using "2.IH"(2) [OF False] "2.prems" by simp
    with False show ?thesis by simp
  qed
qed

lemma replace_scan_same: "old \<noteq> [] \<Longrightarrow> replace_scan old old s = s"
  by (rule replace_scan_eq) simp_all

lemma py_replace_same: "old \<noteq> [] \<Longrightarrow> py_replace s old old = s"
  by (simp add: py_replace_def replace_scan_same)

lemma py_split_nonempty: "py_split sep s \<noteq> []"
  by (induction s) (auto simp: Let_def)

lemma py_split_no_sep: "l \<in> set (py_split sep s) \<Longrightarrow> sep \<notin> set l"
proof (induction s arbitrary: l)
  case Nil
  then show ?case by simp
next
  case (Cons c cs)
  show ?case
  proof (cases "c = sep")
    case True
    with Cons show ?thesis by (auto simp: Let_def)
  next
    case False
    from py_split_nonempty obtain h t where ht: "py_split sep cs = h # t"
      by (cases "py_split sep cs") auto
    with Cons False show ?thesis by (auto simp: Let_def)
  qed
qed

lemma py_split_append_sep:
  "sep \<notin> set l \<Longrightarrow> py_split sep (l @ sep # s) = l # py_split sep s"
  by (induction l) (auto simp: Let_def)

lemma py_split_no_sep_id: "sep \<notin> set l \<Longrightarrow> py_split sep l = [l]"
  by (induction l) (auto simp: Let_def)

lemma py_split_join:
  "ls \<noteq> [] \<Longrightarrow> \<forall>l \<in> set ls. sep \<notin> set l \<Longrightarrow> py_split sep (py_join [sep] ls) = ls"
proof (induction "[sep]" ls rule: py_join.induct)
  case 1
  then show ?case by simp
next
  case (2 l)
  then show ?case by (simp add: py_split_no_sep_id)
next
  case (3 l m ls)
  then show ?case by (simp add: py_split_append_sep)
qed

lemma keep_lines_filter: "keep_lines name ls = filter (\<lambda>l. \<not> sublist name l) ls"
  by (induction ls) auto

lemma keep_lines_no_sep:
  "\<forall>l \<in> set ls. sep \<notin> set l \<Longrightarrow> \<forall>l \<in> set (keep_lines name ls). sep \<notin> set l"
  by (simp add: keep_lines_filter)

lemma split_unregister:
  "py_split NL (unregister name content) =
     (if keep_lines name (py_split NL content) = [] then [[]]
      else keep_lines name (py_split NL content))"
proof (cases "keep_lines name (py_split NL content) = []")
  case True
  then show ?thesis by (simp add: unregister_def)
next
  case False
  have "\<forall>l \<in> set (keep_lines name (py_split NL content)). NL \<notin> set l"
    by (rule keep_lines_no_sep) (auto dest: py_split_no_sep)
  with False show ?thesis
    by (simp add: unregister_def py_split_join)
qed


section \<open>Properties of fix_path.py and remove_refs.py\<close>

text \<open>
  C10. The path-fix script writes back exactly the text it read: its \<open>replace\<close>
  substitutes a string with itself, and the scan over the lines only prints. The text
  read is the file with its line ends translated, so the file written is identical to
  the file read when the manifest holds no carriage return (as a project file written by
  Xcode does), and in every case it holds none afterwards.
\<close>

theorem fix_path_identity_on_text:
  "written (fix_path file) = Some (read_text file) \<and>
   (CR \<notin> set file \<longrightarrow> written (fix_path file) = Some file)"
  by (simp add: fix_path_def Let_def py_replace_same read_text_no_cr)

theorem fix_path_identity_on_text_witness:
  "CR \<notin> set (''path = NaviGPTCore.swift;'' @ [NL] @ ''x'') \<and>
   written (fix_path (''path = NaviGPTCore.swift;'' @ [NL] @ ''x''))
     = Some (''path = NaviGPTCore.swift;'' @ [NL] @ ''x'')"
  using fix_path_identity_on_text [of "''path = NaviGPTCore.swift;'' @ [NL] @ ''x''"]
  by (simp add: read_text_def)

text \<open>
  A manifest with a carriage return is not written back as it was read: the file
  \<open>a\r\nb\<close> (four characters) is left as \<open>a\nb\<close> (three).
\<close>

theorem fix_path_rewrites_cr:
  "written (fix_path [CHR ''a'', CR, NL, CHR ''b'']) = Some [CHR ''a'', NL, CHR ''b''] \<and>
   written (fix_path [CHR ''a'', CR, NL, CHR ''b'']) \<noteq> Some [CHR ''a'', CR, NL, CHR ''b'']"
  by (simp add: fix_path_def Let_def py_replace_same read_text_def)

text \<open>
  C9. The lines of the manifest written by the removal are exactly the input lines that
  do not contain the name, unchanged and in their original order; nothing else appears.
  (When every line is dropped the output is the empty text, whose \<open>split\<close> is one empty
  line.)
\<close>

theorem unregister_keeps_other_lines:
  "py_split NL (unregister name content) =
     (if filter (\<lambda>l. \<not> sublist name l) (py_split NL content) = [] then [[]]
      else filter (\<lambda>l. \<not> sublist name l) (py_split NL content))"
  using split_unregister [of name content] by (simp add: keep_lines_filter)

theorem unregister_keeps_other_lines_witness:
  "py_split NL (unregister ''B.swift'' (''a'' @ [NL] @ ''x B.swift y'' @ [NL] @ ''c''))
     = [''a'', ''c'']"
  using unregister_keeps_other_lines
    [of "''B.swift''" "''a'' @ [NL] @ ''x B.swift y'' @ [NL] @ ''c''"]
  by (simp add: Let_def sublist_code)

text \<open>
  C5. After the removal no line of the written manifest contains the display name, for
  every manifest and every (non-empty) display name; the script's own name is
  \<open>NaviGPTCore.swift\<close>.
\<close>

theorem unregister_removes_all:
  "name \<noteq> [] \<Longrightarrow> \<forall>l \<in> set (py_split NL (unregister name content)). \<not> sublist name l"
  by (simp add: split_unregister keep_lines_filter)

theorem unregister_removes_all_witness:
  "''NaviGPTCore.swift'' \<noteq> [] \<and>
   written (remove_refs (''a NaviGPTCore.swift b'' @ [NL] @ ''c'')) = Some ''c'' \<and>
   list_all (\<lambda>l. \<not> sublist ''NaviGPTCore.swift'' l)
     (py_split NL (unregister ''NaviGPTCore.swift'' (''a NaviGPTCore.swift b'' @ [NL] @ ''c'')))"
  using unregister_removes_all
    [of "''NaviGPTCore.swift''" "''a NaviGPTCore.swift b'' @ [NL] @ ''c''"]
  by (simp add: remove_refs_def read_text_def unregister_def Let_def sublist_code list_all_iff)

section \<open>Facts about the registration edits\<close>

lemma insert_at_splice: "insert_at s i t = splice s (slice_index s i) t"
  by (simp add: insert_at_def splice_def slice_to_def slice_from_def)


lemma subseq_splice: "subseq s (splice s k t)"
proof -
  have "subseq (take k s @ drop k s) (take k s @ t @ drop k s)"
    by (simp only: subseq_append') (rule list_emb_append2, simp)
  then show ?thesis by (simp add: splice_def)
qed

lemma find_first_None_iff: "find_first sub s = None \<longleftrightarrow> \<not> sublist sub s"
  by (induction s) (auto simp: sublist_Cons_right split: option.splits)



lemma py_find_0_found: "py_find s sub 0 \<noteq> - 1 \<longleftrightarrow> sublist sub s"
proof (cases "find_first sub s")
  case None
  then show ?thesis
    using find_first_None_iff [of sub s] by (simp add: py_find_def slice_index_def)
next
  case (Some i)
  then show ?thesis
    using find_first_None_iff [of sub s] by (simp add: py_find_def slice_index_def)
qed

lemma spliced_insert_at: "spliced c new (insert_at c i new)"
  by (auto simp: spliced_def insert_at_splice)

lemma spliced_refl: "spliced c new c"
  by (simp add: spliced_def)

lemma spliced_insert_after_header: "spliced c new (insert_after_header m c new)"
  by (simp add: insert_after_header_def Let_def spliced_insert_at)

lemma spliced_main_group: "spliced c new (add_to_main_group c new)"
  by (simp add: add_to_main_group_def Let_def spliced_insert_at spliced_refl)

lemma spliced_services_group: "spliced c new (add_to_services_group c new)"
  by (simp add: add_to_services_group_def Let_def spliced_insert_at spliced_refl spliced_main_group)

lemma spliced_test_group: "spliced c new (add_to_test_group n c new)"
  by (simp add: add_to_test_group_def Let_def spliced_insert_at spliced_refl spliced_main_group)

lemma spliced_sources_phase: "spliced c new (add_to_sources_phase tgt c new)"
  by (simp add: add_to_sources_phase_def Let_def spliced_insert_at spliced_refl)

lemma spliced_first_sources_phase: "spliced c new (add_to_first_sources_phase c new)"
  by (simp add: add_to_first_sources_phase_def Let_def spliced_insert_at spliced_refl)

lemma spliced_subseq: "spliced c new c' \<Longrightarrow> subseq c c'"
  by (auto simp: spliced_def subseq_splice)

lemma subseq_four:
  assumes "spliced c t1 c1" "spliced c1 t2 c2" "spliced c2 t3 c3" "spliced c3 t4 c4"
  shows "subseq c c4"
proof -
  have "subseq c c1" "subseq c1 c2" "subseq c2 c3" "subseq c3 c4"
    using assms by (simp_all add: spliced_subseq)
  then show ?thesis by (meson subseq_order.order_trans)
qed

lemma inserting_main: "inserting register_main"
  unfolding inserting_def
proof (intro allI)
  fix c r b n
  show "subseq c (register_main c r b n)"
    unfolding register_main_def Let_def add_build_file_def add_file_ref_def
    by (rule subseq_four [OF spliced_insert_after_header spliced_insert_after_header
          spliced_main_group spliced_sources_phase])
qed

lemma inserting_test: "inserting register_test"
  unfolding inserting_def
proof (intro allI)
  fix c r b n
  show "subseq c (register_test c r b n)"
    unfolding register_test_def Let_def add_build_file_def add_file_ref_def
    by (rule subseq_four [OF spliced_insert_after_header spliced_insert_after_header
          spliced_test_group spliced_sources_phase])
qed

lemma inserting_phase3: "inserting register_phase3"
  unfolding inserting_def
proof (intro allI)
  fix c r b n
  show "subseq c (register_phase3 c r b n)"
    unfolding register_phase3_def Let_def add_build_file_def add_file_ref_def
    by (rule subseq_four [OF spliced_insert_after_header spliced_insert_after_header
          spliced_services_group spliced_sources_phase])
qed

lemma process_file_subseq:
  assumes "inserting register"
  shows "subseq (st_content st) (st_content (process_file register uuid4 st f))"
proof (cases f)
  case (Pair file_path file_name)
  show ?thesis
  proof (cases "sublist file_name (st_content st)")
    case True
    then show ?thesis by (simp add: process_file_def Pair)
  next
    case False
    then show ?thesis
      using assms by (simp add: process_file_def Pair Let_def inserting_def)
  qed
qed

lemma process_files_subseq:
  assumes "inserting register"
  shows "subseq (st_content st) (st_content (process_files register uuid4 st fs))"
  unfolding process_files_def
proof (induction fs arbitrary: st)
  case Nil
  show ?case by simp
next
  case (Cons f fs)
  have "subseq (st_content st) (st_content (process_file register uuid4 st f))"
    by (rule process_file_subseq [OF assms])
  moreover have "subseq (st_content (process_file register uuid4 st f))
      (st_content (foldl (process_file register uuid4) (process_file register uuid4 st f) fs))"
    by (rule Cons.IH)
  ultimately have "subseq (st_content st)
      (st_content (foldl (process_file register uuid4) (process_file register uuid4 st f) fs))"
    by (rule subseq_order.order_trans)
  then show ?case by simp
qed

lemma add_files_subseq:
  "\<exists>out. written (add_files_to_project uuid4 file) = Some out \<and> subseq (read_text file) out"
proof -
  let ?st0 = "\<lparr> st_content = read_text file, st_uuids = 0, st_out = [] \<rparr>"
  let ?st1 = "process_files register_main uuid4 ?st0 main_target_files"
  let ?st2 = "process_files register_test uuid4 ?st1 test_target_files"
  have "subseq (st_content ?st0) (st_content ?st1)"
    by (rule process_files_subseq [OF inserting_main])
  moreover have "subseq (st_content ?st1) (st_content ?st2)"
    by (rule process_files_subseq [OF inserting_test])
  ultimately have "subseq (st_content ?st0) (st_content ?st2)"
    by (rule subseq_order.order_trans)
  then show ?thesis by (simp add: add_files_to_project_def Let_def)
qed

lemma add_phase3_files_subseq:
  "\<exists>out. written (add_phase3_files_to_project uuid4 file) = Some out
     \<and> subseq (read_text file) out"
proof -
  let ?st0 = "\<lparr> st_content = read_text file, st_uuids = 0, st_out = [] \<rparr>"
  have "subseq (st_content ?st0)
     (st_content (process_files register_phase3 uuid4 ?st0 phase3_target_files))"
    by (rule process_files_subseq [OF inserting_phase3])
  then show ?thesis by (simp add: add_phase3_files_to_project_def Let_def)
qed

lemma add_file_manually_subseq:
  "written (add_file_manually uuid4 file) = None \<or>
   (\<exists>out. written (add_file_manually uuid4 file) = Some out \<and> subseq (read_text file) out)"
proof -
  let ?c0 = "read_text file"
  let ?r = "generate_uuid (uuid4 0)" and ?b = "generate_uuid (uuid4 1)"
  let ?c1 = "insert_at ?c0 (py_find ?c0 [NL] (py_find ?c0 ''/* Begin PBXBuildFile section */'' 0) + 1)
                 (new_build_file ?b ?r ''NaviGPTCore.swift'')"
  let ?c2 = "insert_at ?c1 (py_find ?c1 [NL] (py_find ?c1 ''/* Begin PBXFileReference section */'' 0) + 1)
                 (new_file_ref ?r ''NaviGPTCore.swift'')"
  let ?c3 = "add_to_main_group ?c2 (child_entry ?r ''NaviGPTCore.swift'')"
  let ?c4 = "add_to_first_sources_phase ?c3 (source_entry ?b ''NaviGPTCore.swift'')"
  have "subseq ?c0 ?c4"
    by (rule subseq_four [OF spliced_insert_at spliced_insert_at spliced_main_group
          spliced_first_sources_phase])
  then show ?thesis by (simp add: add_file_manually_def Let_def)
qed

lemma process_file_present:
  "sublist (snd f) (st_content st) \<Longrightarrow>
   process_file register uuid4 st f
     = st\<lparr> st_out := st_out st @ [Processing (snd f), AlreadyInProject (snd f)] \<rparr>"
  by (cases f) (simp add: process_file_def)

lemma process_files_all_present:
  "list_all (\<lambda>f. sublist (snd f) (st_content st)) fs \<Longrightarrow>
   process_files register uuid4 st fs
     = st\<lparr> st_out := st_out st
          @ concat (map (\<lambda>f. [Processing (snd f), AlreadyInProject (snd f)]) fs) \<rparr>"
  unfolding process_files_def
proof (induction fs arbitrary: st)
  case Nil
  show ?case by simp
next
  case (Cons f fs)
  let ?st = "st\<lparr> st_out := st_out st @ [Processing (snd f), AlreadyInProject (snd f)] \<rparr>"
  from Cons.prems have f: "sublist (snd f) (st_content st)"
    and fs: "list_all (\<lambda>f. sublist (snd f) (st_content ?st)) fs" by simp_all
  have "foldl (process_file register uuid4) st (f # fs)
      = foldl (process_file register uuid4) ?st fs"
    by (simp add: process_file_present [OF f])
  also have "\<dots> = ?st\<lparr> st_out := st_out ?st
          @ concat (map (\<lambda>f. [Processing (snd f), AlreadyInProject (snd f)]) fs) \<rparr>"
    by (rule Cons.IH [OF fs])
  finally show ?case by simp
qed

lemma sublist_in_right: "sublist x b \<Longrightarrow> sublist x (a @ b)"
proof -
  assume "sublist x b"
  then obtain p q where "b = p @ x @ q" by (auto simp: sublist_def)
  then have "a @ b = (a @ p) @ x @ q" by simp
  then show ?thesis unfolding sublist_def by blast
qed

lemma sublist_in_left: "sublist x a \<Longrightarrow> sublist x (a @ b)"
proof -
  assume "sublist x a"
  then obtain p q where "a = p @ x @ q" by (auto simp: sublist_def)
  then have "a @ b = p @ x @ (q @ b)" by simp
  then show ?thesis unfolding sublist_def by blast
qed

lemma name_in_names_text:
  "f \<in> set fs \<Longrightarrow> sublist (snd f) (concat (map (\<lambda>f. snd f @ [NL]) fs))"
proof (induction fs)
  case Nil
  then show ?case by simp
next
  case (Cons g fs)
  show ?case
  proof (cases "f = g")
    case True
    have "sublist (snd g) ([] @ snd g @ ([NL] @ concat (map (\<lambda>f. snd f @ [NL]) fs)))"
      by (rule sublist_appendI)
    then show ?thesis using True by simp
  next
    case False
    with Cons have "sublist (snd f) (concat (map (\<lambda>f. snd f @ [NL]) fs))" by simp
    then have "sublist (snd f) ((snd g @ [NL]) @ concat (map (\<lambda>f. snd f @ [NL]) fs))"
      by (rule sublist_in_right)
    then show ?thesis by simp
  qed
qed

lemma names_in_names_text:
  "list_all (\<lambda>f. sublist (snd f) (pre @ concat (map (\<lambda>f. snd f @ [NL]) fs))) fs"
  unfolding list_all_iff
proof
  fix f assume "f \<in> set fs"
  then have "sublist (snd f) (concat (map (\<lambda>f. snd f @ [NL]) fs))"
    by (rule name_in_names_text)
  then show "sublist (snd f) (pre @ concat (map (\<lambda>f. snd f @ [NL]) fs))"
    by (rule sublist_in_right)
qed

lemma all_present_unchanged:
  assumes "list_all (\<lambda>f. sublist (snd f) (read_text file)) (main_target_files @ test_target_files)"
  shows "written (add_files_to_project uuid4 file) = Some (read_text file)"
proof -
  let ?st0 = "\<lparr> st_content = read_text file, st_uuids = 0, st_out = [] \<rparr>"
  from assms have m: "list_all (\<lambda>f. sublist (snd f) (st_content ?st0)) main_target_files"
    and t: "list_all (\<lambda>f. sublist (snd f) (st_content ?st0)) test_target_files" by simp_all
  have 1: "st_content (process_files register_main uuid4 ?st0 main_target_files) = read_text file"
    by (simp add: process_files_all_present [OF m])
  let ?st1 = "process_files register_main uuid4 ?st0 main_target_files"
  from t 1 have t': "list_all (\<lambda>f. sublist (snd f) (st_content ?st1)) test_target_files"
    by simp
  have "st_content (process_files register_test uuid4 ?st1 test_target_files) = read_text file"
    by (simp add: process_files_all_present [OF t'] 1)
  then show ?thesis by (simp add: add_files_to_project_def Let_def)
qed

lemma cr_not_in_all_names_text: "CR \<notin> set all_names_text"
  by (simp add: all_names_text_def main_target_files_def test_target_files_def)

lemma read_text_cr_all_names: "read_text (CR # all_names_text) = NL # all_names_text"
proof -
  obtain d cs where s: "all_names_text = d # cs" and d: "d \<noteq> NL"
    by (simp add: all_names_text_def main_target_files_def)
  have "CR \<notin> set (d # cs)" using cr_not_in_all_names_text s by simp
  then have "universal_newlines (d # cs) = d # cs" by (rule universal_newlines_no_cr)
  with d show ?thesis by (simp add: read_text_def s)
qed

section \<open>Properties of the registration scripts\<close>



text \<open>
  C7. A run of a registration script only inserts: the text read from the project file
  is a subsequence of the file written, for the two batch scripts (which always write)
  and for the single-file script when it writes. The text read is the file with its
  line ends translated, so the file itself is a subsequence of the output when it holds
  no carriage return.
\<close>

theorem registration_only_inserts:
  "(\<exists>out. written (add_files_to_project uuid4 file) = Some out \<and> inserts_only file out) \<and>
   (\<exists>out. written (add_phase3_files_to_project uuid4 file) = Some out \<and> inserts_only file out) \<and>
   (written (add_file_manually uuid4 file) = None \<or>
    (\<exists>out. written (add_file_manually uuid4 file) = Some out \<and> inserts_only file out))"
  using add_files_subseq [of uuid4 "file"] add_phase3_files_subseq [of uuid4 "file"]
    add_file_manually_subseq [of uuid4 "file"]
  by (auto simp: inserts_only_def read_text_no_cr)

theorem registration_only_inserts_witness:
  "CR \<notin> set all_names_text \<and>
   written (add_files_to_project zero_uuid4 all_names_text) = Some all_names_text \<and>
   subseq all_names_text all_names_text"
proof -
  have "list_all (\<lambda>f. sublist (snd f) all_names_text) (main_target_files @ test_target_files)"
    unfolding all_names_text_def
    using names_in_names_text [of "[]" "main_target_files @ test_target_files"] by simp
  then have "list_all (\<lambda>f. sublist (snd f) (read_text all_names_text))
      (main_target_files @ test_target_files)"
    by (simp only: read_text_no_cr [OF cr_not_in_all_names_text])
  then have "written (add_files_to_project zero_uuid4 all_names_text)
      = Some (read_text all_names_text)"
    by (rule all_present_unchanged)
  then have "written (add_files_to_project zero_uuid4 all_names_text) = Some all_names_text"
    by (simp only: read_text_no_cr [OF cr_not_in_all_names_text])
  then show ?thesis
    using registration_only_inserts [of zero_uuid4 all_names_text]
    by (auto simp: inserts_only_def cr_not_in_all_names_text)
qed

text \<open>
  The bytes of a manifest with a carriage return are not all preserved: on the file made
  of a carriage return and \<open>all_names_text\<close> every file is skipped, and the file written
  starts with a line feed instead.
\<close>

theorem crlf_manifest_is_rewritten:
  "written (add_files_to_project zero_uuid4 (CR # all_names_text)) = Some (NL # all_names_text) \<and>
   \<not> subseq (CR # all_names_text) (NL # all_names_text)"
proof
  have "list_all (\<lambda>f. sublist (snd f) (NL # all_names_text))
          (main_target_files @ test_target_files)"
    unfolding all_names_text_def
    using names_in_names_text [of "[NL]" "main_target_files @ test_target_files"] by simp
  then have "list_all (\<lambda>f. sublist (snd f) (read_text (CR # all_names_text)))
          (main_target_files @ test_target_files)"
    by (simp only: read_text_cr_all_names)
  then have "written (add_files_to_project zero_uuid4 (CR # all_names_text))
      = Some (read_text (CR # all_names_text))"
    by (rule all_present_unchanged)
  then show "written (add_files_to_project zero_uuid4 (CR # all_names_text))
      = Some (NL # all_names_text)"
    by (simp only: read_text_cr_all_names)
next
  show "\<not> subseq (CR # all_names_text) (NL # all_names_text)"
  proof
    assume "subseq (CR # all_names_text) (NL # all_names_text)"
    then have "CR \<in> set (NL # all_names_text)"
      by (auto dest: list_emb_set)
    then show False using cr_not_in_all_names_text by simp
  qed
qed

section \<open>Facts about missing markers\<close>






lemma insert_after_header_splice: "\<exists>k. insert_after_header m c new = splice c k new"
  by (auto simp: insert_after_header_def Let_def insert_at_splice)









section \<open>A run of add_phase3_files_to_xcode.py on a file with no marker\<close>










lemma services_group_marker:
  "sublist ''/* Services */'' c \<Longrightarrow>
   py_rfind c ''children = ('' (py_find c ''/* Services */'' 0 + 100) \<noteq> - 1 \<Longrightarrow>
   add_to_services_group c new
     = insert_at c (py_find c '');''
         (py_rfind c ''children = ('' (py_find c ''/* Services */'' 0 + 100))) new"
  using py_find_0_found [of c "''/* Services */''"]
  by (simp add: add_to_services_group_def Let_def)










section \<open>Insertions that split no name\<close>

lemma find_first_Some:
  "find_first sub s = Some i \<Longrightarrow> i \<le> length s \<and> prefix sub (drop i s)"
proof (induction s arbitrary: i)
  case Nil
  then show ?case by (simp split: if_splits)
next
  case (Cons c cs)
  show ?case
  proof (cases "prefix sub (c # cs)")
    case True
    with Cons.prems show ?thesis by simp
  next
    case False
    with Cons.prems obtain j where j: "find_first sub cs = Some j" and i: "i = Suc j"
      by (auto split: option.splits)
    from Cons.IH [OF j] i show ?thesis by simp
  qed
qed

lemma py_find_found:
  assumes "py_find c sub s \<noteq> - 1"
  shows "0 \<le> py_find c sub s \<and> nat (py_find c sub s) \<le> length c
           \<and> prefix sub (drop (nat (py_find c sub s)) c)"
proof -
  let ?k = "slice_index c s"
  from assms have k: "\<not> length c < ?k" by (auto simp: py_find_def Let_def)
  with assms obtain j where j: "find_first sub (drop ?k c) = Some j"
    by (auto simp: py_find_def Let_def split: option.splits)
  with k have e: "py_find c sub s = int (?k + j)" by (simp add: py_find_def Let_def)
  from find_first_Some [OF j] have "j \<le> length c - ?k" and "prefix sub (drop (?k + j) c)"
    by (simp_all add: add.commute)
  moreover from e have "nat (py_find c sub s) = ?k + j" by (simp add: nat_add_distrib)
  moreover from e have "0 \<le> py_find c sub s" by simp
  ultimately show ?thesis using k by simp
qed

lemma prefix_drop_nth:
  assumes "prefix (x # xs) (drop i c)"
  shows "i < length c \<and> c ! i = x"
proof -
  from assms obtain zs where d: "drop i c = x # zs" by (auto simp: prefix_def)
  then have l: "i < length c" by (cases "i < length c") auto
  then have "c ! i = hd (drop i c)" by (simp add: hd_drop_conv_nth)
  with d l show ?thesis by simp
qed

lemma sublist_splice:
  assumes "sublist x c"
    and "k = 0 \<or> length c \<le> k \<or> c ! (k - 1) \<notin> set x \<or> c ! k \<notin> set x"
  shows "sublist x (splice c k t)"
proof -
  from assms(1) obtain a b where c: "c = a @ x @ b" by (auto simp: sublist_def)
  consider (L) "k \<le> length a" | (R) "length a + length x \<le> k"
    | (M) "length a < k" "k < length a + length x" by linarith
  then show ?thesis
  proof cases
    case L
    then have "splice c k t = (take k a @ t @ drop k a) @ x @ b"
      by (simp add: splice_def c)
    then show ?thesis by (simp only: sublist_appendI)
  next
    case R
    then have "splice c k t
        = a @ x @ (take (k - length a - length x) b @ t @ drop (k - length a - length x) b)"
      by (simp add: splice_def c)
    then show ?thesis by (simp only: sublist_appendI)
  next
    case M
    then have 1: "c ! (k - 1) = x ! (k - 1 - length a)" and 2: "c ! k = x ! (k - length a)"
      by (auto simp: c nth_append)
    from M have "k - 1 - length a < length x" and "k - length a < length x" by auto
    then have "c ! (k - 1) \<in> set x" and "c ! k \<in> set x" using 1 2 by auto
    moreover from M have "k \<noteq> 0" and "\<not> length c \<le> k" by (auto simp: c)
    ultimately show ?thesis using assms(2) by blast
  qed
qed

lemma sublist_new_splice: "sublist t (splice c k t)"
  unfolding splice_def by (rule sublist_appendI)

lemma keep_insert_header:
  assumes "NL \<notin> set x" and "sublist x c"
  shows "sublist x (insert_after_header m c new)"
proof -
  let ?i = "py_find c [NL] (py_find c m 0)"
  have e: "insert_after_header m c new = splice c (slice_index c (?i + 1)) new"
    by (simp add: insert_after_header_def Let_def insert_at_splice)
  show ?thesis
  proof (cases "?i = - 1")
    case True
    then have "slice_index c (?i + 1) = 0" by (simp add: slice_index_def)
    then show ?thesis using assms(2) by (simp add: e sublist_splice)
  next
    case False
    from py_find_found [OF False] have p: "0 \<le> ?i" and pr: "prefix [NL] (drop (nat ?i) c)"
      by simp_all
    from prefix_drop_nth [OF pr] have n: "c ! nat ?i = NL" by simp
    from p have k: "slice_index c (?i + 1) = Suc (nat ?i)"
      by (simp add: slice_index_def nat_add_distrib)
    have "c ! (Suc (nat ?i) - 1) \<notin> set x" using n assms(1) by simp
    then show ?thesis using assms(2) by (simp only: e k) (rule sublist_splice, simp_all)
  qed
qed

lemma close_position:
  assumes "nl_end c"
  shows "slice_index c (py_find c '');'' s) < length c \<and>
         (c ! slice_index c (py_find c '');'' s) = NL
          \<or> c ! slice_index c (py_find c '');'' s) = CHR '')'')"
proof (cases "py_find c '');'' s = - 1")
  case True
  from assms have ne: "c \<noteq> []" and l: "last c = NL" by (simp_all add: nl_end_def)
  from ne have k: "slice_index c (- 1) = length c - 1"
    by (simp add: slice_index_def nat_diff_distrib')
  from ne l have "c ! (length c - 1) = NL" by (simp add: last_conv_nth)
  with ne k True show ?thesis by simp
next
  case False
  let ?e = "py_find c '');'' s"
  from py_find_found [OF False] have p: "0 \<le> ?e" and pr: "prefix '');'' (drop (nat ?e) c)"
    by simp_all
  from prefix_drop_nth [OF pr] have "nat ?e < length c" and "c ! nat ?e = CHR '')''" by simp_all
  moreover from p have "slice_index c ?e = nat ?e" by (simp add: slice_index_def)
  ultimately show ?thesis by simp
qed

lemma keep_close_insert:
  assumes "nl_end c" and "clean x" and "sublist x c" and "close_insert c new c'"
  shows "sublist x c'"
proof -
  from assms(4) consider "c' = c" | s where "c' = insert_at c (py_find c '');'' s) new"
    by (auto simp: close_insert_def)
  then show ?thesis
  proof cases
    case 1
    with assms(3) show ?thesis by simp
  next
    case 2
    let ?k = "slice_index c (py_find c '');'' s)"
    from close_position [OF assms(1), of s] assms(2) have "c ! ?k \<notin> set x"
      by (auto simp: clean_def)
    then have "sublist x (splice c ?k new)" using assms(3) by (simp add: sublist_splice)
    then show ?thesis by (simp add: 2 insert_at_splice)
  qed
qed

lemma nl_end_splice_inner:
  assumes "nl_end c" and "k < length c"
  shows "nl_end (splice c k t)"
proof -
  from assms(2) have "drop k c \<noteq> []" by simp
  then have "last (take k c @ t @ drop k c) = last (drop k c)" by simp
  also have "\<dots> = last c" using assms(2) by simp
  finally show ?thesis using assms by (simp add: nl_end_def splice_def)
qed

lemma nl_end_splice_nl:
  assumes "ends_nl c" and "nl_end t"
  shows "nl_end (splice c k t)"
proof (cases "k < length c")
  case True
  with assms(1) have "nl_end c" by (auto simp: ends_nl_def nl_end_def)
  then show ?thesis using True by (rule nl_end_splice_inner)
next
  case False
  then have "splice c k t = c @ t" by (simp add: splice_def)
  with assms(2) show ?thesis by (simp add: nl_end_def)
qed

lemma nl_end_insert_header:
  "ends_nl c \<Longrightarrow> nl_end new \<Longrightarrow> nl_end (insert_after_header m c new)"
  by (simp add: insert_after_header_def Let_def insert_at_splice nl_end_splice_nl)

lemma nl_end_close_insert:
  assumes "nl_end c" and "close_insert c new c'"
  shows "nl_end c'"
proof -
  from assms(2) consider "c' = c" | s where "c' = insert_at c (py_find c '');'' s) new"
    by (auto simp: close_insert_def)
  then show ?thesis
  proof cases
    case 1
    with assms(1) show ?thesis by simp
  next
    case 2
    from close_position [OF assms(1), of s]
    have "slice_index c (py_find c '');'' s) < length c" by simp
    with assms(1) show ?thesis by (simp add: 2 insert_at_splice nl_end_splice_inner)
  qed
qed

lemma close_insert_spliced: "close_insert c new c' \<Longrightarrow> spliced c new c'"
  by (auto simp: close_insert_def spliced_def insert_at_splice)

lemma spliced_set: "spliced c new c' \<Longrightarrow> set c' \<subseteq> set c \<union> set new"
proof -
  assume "spliced c new c'"
  then consider "c' = c" | k where "c' = splice c k new" by (auto simp: spliced_def)
  then show ?thesis
  proof cases
    case 1
    then show ?thesis by simp
  next
    case 2
    have "set (take k c) \<subseteq> set c" and "set (drop k c) \<subseteq> set c"
      by (rule set_take_subset, rule set_drop_subset)
    then show ?thesis unfolding 2 splice_def by auto
  qed
qed

lemma close_insert_main_group: "close_insert c new (add_to_main_group c new)"
  by (auto simp: add_to_main_group_def Let_def close_insert_def)

lemma close_insert_services_group: "close_insert c new (add_to_services_group c new)"
  using close_insert_main_group [of c new]
  by (auto simp: add_to_services_group_def Let_def close_insert_def)


lemma close_insert_sources_phase: "close_insert c new (add_to_sources_phase tgt c new)"
  by (auto simp: add_to_sources_phase_def Let_def close_insert_def)

lemma nl_end_texts:
  "nl_end (new_build_file b r n)" "nl_end (new_file_ref r n)"
  by (simp_all add: nl_end_def new_build_file_def new_file_ref_def)

lemma name_in_build_file: "sublist n (new_build_file b r n)"
  using sublist_appendI [of n "[TAB, TAB] @ b @ '' /* ''"
      "'' in Sources */ = {isa = PBXBuildFile; fileRef = '' @ r @ '' /* '' @ n @ '' */; };''
         @ [NL]"]
  by (simp add: new_build_file_def)

lemma no_cr_texts:
  assumes "CR \<notin> set r" and "CR \<notin> set b" and "CR \<notin> set n"
  shows "CR \<notin> set (new_build_file b r n)" and "CR \<notin> set (new_file_ref r n)"
    and "CR \<notin> set (child_entry r n)" and "CR \<notin> set (source_entry b n)"
  using assms
  by (simp_all add: new_build_file_def new_file_ref_def child_entry_def source_entry_def)

lemma no_cr_spliced: "CR \<notin> set c \<Longrightarrow> CR \<notin> set new \<Longrightarrow> spliced c new c' \<Longrightarrow> CR \<notin> set c'"
  using spliced_set [of c new c'] by auto

lemma keeping_shape:
  assumes shape: "\<And>c r b n. \<exists>c3.
      close_insert
        (insert_after_header m2 (insert_after_header m1 c (new_build_file b r n))
           (new_file_ref r n))
        (child_entry r n) c3 \<and>
      close_insert c3 (source_entry b n) (register c r b n)"
  shows "keeping register"
proof -
  have main: "nl_end (register c r b n) \<and>
      (clean x \<and> sublist x c \<longrightarrow> sublist x (register c r b n)) \<and>
      (clean n \<longrightarrow> sublist n (register c r b n))" if e: "ends_nl c" for c r b n x
  proof -
    let ?c1 = "insert_after_header m1 c (new_build_file b r n)"
    let ?c2 = "insert_after_header m2 ?c1 (new_file_ref r n)"
    from shape [of c b r n] obtain c3 where 3: "close_insert ?c2 (child_entry r n) c3"
      and 4: "close_insert c3 (source_entry b n) (register c r b n)" by blast
    have n1: "nl_end ?c1" using e nl_end_texts(1) by (rule nl_end_insert_header)
    then have "ends_nl ?c1" by (simp add: nl_end_def ends_nl_def)
    then have n2: "nl_end ?c2" using nl_end_texts(2) by (rule nl_end_insert_header)
    have n3: "nl_end c3" using n2 3 by (rule nl_end_close_insert)
    have n4: "nl_end (register c r b n)" using n3 4 by (rule nl_end_close_insert)
    have keep: "sublist y (register c r b n)" if y: "clean y" and y1: "sublist y ?c1" for y
    proof -
      from y have "NL \<notin> set y" by (simp add: clean_def)
      then have "sublist y ?c2" using y1 by (rule keep_insert_header)
      then have "sublist y c3" using n2 y 3 by (simp add: keep_close_insert)
      then show ?thesis using n3 y 4 by (simp add: keep_close_insert)
    qed
    have "sublist x (register c r b n)" if x: "clean x" and xc: "sublist x c"
    proof -
      from x have "NL \<notin> set x" by (simp add: clean_def)
      then have "sublist x ?c1" using xc by (rule keep_insert_header)
      with x show ?thesis by (rule keep)
    qed
    moreover have "sublist n (register c r b n)" if n: "clean n"
    proof -
      obtain k where "?c1 = splice c k (new_build_file b r n)"
        using insert_after_header_splice [of m1 c "new_build_file b r n"] by blast
      then have "sublist (new_build_file b r n) ?c1" by (simp add: sublist_new_splice)
      with name_in_build_file [of n b r] have "sublist n ?c1"
        by (rule sublist_order.order_trans)
      with n show ?thesis by (rule keep)
    qed
    ultimately show ?thesis using n4 by blast
  qed
  have cr: "CR \<notin> set (register c r b n)"
    if c: "CR \<notin> set c" and r: "CR \<notin> set r" and b: "CR \<notin> set b" and n: "CR \<notin> set n"
    for c r b n
  proof -
    let ?c1 = "insert_after_header m1 c (new_build_file b r n)"
    let ?c2 = "insert_after_header m2 ?c1 (new_file_ref r n)"
    from shape [of c b r n] obtain c3 where 3: "close_insert ?c2 (child_entry r n) c3"
      and 4: "close_insert c3 (source_entry b n) (register c r b n)" by blast
    note t = no_cr_texts [OF r b n]
    have "CR \<notin> set ?c1" using c t(1) spliced_insert_after_header by (rule no_cr_spliced)
    then have "CR \<notin> set ?c2" using t(2) spliced_insert_after_header by (rule no_cr_spliced)
    then have "CR \<notin> set c3" using t(3) close_insert_spliced [OF 3] by (rule no_cr_spliced)
    then show ?thesis using t(4) close_insert_spliced [OF 4] by (rule no_cr_spliced)
  qed
  show ?thesis unfolding keeping_def using main cr by blast
qed



lemma keeping_phase3: "keeping register_phase3"
proof (rule keeping_shape)
  fix c r b n
  show "\<exists>c3. close_insert
        (insert_after_header ''/* Begin PBXFileReference section */''
           (insert_after_header ''/* Begin PBXBuildFile section */'' c (new_build_file b r n))
           (new_file_ref r n))
        (child_entry r n) c3 \<and>
      close_insert c3 (source_entry b n) (register_phase3 c r b n)"
    unfolding register_phase3_def Let_def add_build_file_def add_file_ref_def
    using close_insert_services_group close_insert_sources_phase by blast
qed










section \<open>A run that splits a name\<close>















section \<open>Where the searches land in a well-formed text\<close>











section \<open>The four records of a registered file\<close>







end
